theory Spec2Isabelle
  imports Complex_Main
begin

section \<open>JavaScript numbers and library functions\<close>

text \<open>
  The program is JavaScript (\<^verbatim>\<open>blobs.js\<close>). Its numbers are IEEE doubles; the embedding
  uses \<^typ>\<open>real\<close> for them, so rounding error, NaN, the infinities and signed zeros are
  not represented. \<^verbatim>\<open>Date.now()\<close> is an integer number of milliseconds and is passed in
  as an argument wherever the source reads the clock.
\<close>

text \<open>\<^verbatim>\<open>Math.round\<close>: the nearest integer, a tie going up.\<close>

definition Math_round :: "real \<Rightarrow> int" where
  "Math_round r = \<lfloor>r + 1 / 2\<rfloor>"

text \<open>
  \<^verbatim>\<open>Math.atan2(b, a)\<close>: the angle of the point with abscissa \<open>a\<close> and ordinate \<open>b\<close>,
  in \<open>(-pi, pi]\<close>.
\<close>

definition Math_atan2 :: "real \<Rightarrow> real \<Rightarrow> real" where
  "Math_atan2 b a =
    (if 0 < a then arctan (b / a)
     else if a < 0 then (if 0 \<le> b then arctan (b / a) + pi else arctan (b / a) - pi)
     else if 0 < b then pi / 2
     else if b < 0 then - (pi / 2)
     else 0)"

text \<open>
  \<^verbatim>\<open>for (var i in xs) { body }\<close> over an array whose length the body does not change: the
  body runs once for each index, in increasing order, on the state it mutates.
\<close>

definition for_in :: "'a list \<Rightarrow> (nat \<Rightarrow> 's \<Rightarrow> 's) \<Rightarrow> 's \<Rightarrow> 's" where
  "for_in xs body s = fold body [0..<length xs] s"

section \<open>Colour conversion: \<^verbatim>\<open>hsvToRgb\<close>\<close>

definition hsvToRgb :: "real \<Rightarrow> real \<Rightarrow> real \<Rightarrow> int \<times> int \<times> int" where
  "hsvToRgb h0 s0 v0 =
    (let h = max 0 (min 360 h0);
         s = max 0 (min 100 s0);
         v = max 0 (min 100 v0);
         s = s / 100;
         v = v / 100
     in if s = 0 then (Math_round (v * 255), Math_round (v * 255), Math_round (v * 255))
        else
          let h = h / 60;
              i = \<lfloor>h\<rfloor>;
              f = h - of_int i;
              p = v * (1 - s);
              q = v * (1 - s * f);
              t = v * (1 - s * (1 - f));
              (r, g, b) =
                (if i = 0 then (v, t, p)
                 else if i = 1 then (q, v, p)
                 else if i = 2 then (p, v, t)
                 else if i = 3 then (p, q, v)
                 else if i = 4 then (t, p, v)
                 else (v, p, q))
          in (Math_round (r * 255), Math_round (g * 255), Math_round (b * 255)))"

text \<open>A colour channel: an integer from 0 to 255.\<close>

definition channel :: "int \<Rightarrow> bool" where
  "channel c = (0 \<le> c \<and> c \<le> 255)"

section \<open>The oscillator: \<^verbatim>\<open>LFO\<close>\<close>

text \<open>
  The constructor's arguments and its two closure variables \<^verbatim>\<open>value\<close> and
  \<^verbatim>\<open>direction\<close> are the fields of one record. The callback receives the new value and
  acts on a state of type \<open>'w\<close>.
\<close>

record 'w LFO =
  minValue :: real
  maxValue :: real
  speed :: real
  callback :: "real \<Rightarrow> 'w \<Rightarrow> 'w"
  loopRound :: bool
  "value" :: real
  direction :: real

definition new_LFO :: "real \<Rightarrow> real \<Rightarrow> real \<Rightarrow> (real \<Rightarrow> 'w \<Rightarrow> 'w) \<Rightarrow> bool \<Rightarrow> 'w LFO" where
  "new_LFO lo hi rate cb lr =
    \<lparr>minValue = lo, maxValue = hi, speed = rate, callback = cb, loopRound = lr,
     value = (lo + hi) / 2, direction = 1\<rparr>"

definition LFO_update :: "real \<Rightarrow> 'w LFO \<times> 'w \<Rightarrow> 'w LFO \<times> 'w" where
  "LFO_update dt st =
    (case st of (l, w) \<Rightarrow>
      let change = speed l * dt;
          v1 = value l + change * direction l;
          (v2, d2) =
            (if v1 > maxValue l then
               (let extra = v1 - maxValue l
                in if loopRound l then (minValue l + extra, direction l)
                   else (maxValue l - extra, direction l * (- 1)))
             else (v1, direction l));
          (v3, d3) =
            (if v2 < minValue l then
               (let extra = minValue l - v2 in (minValue l + extra, d2 * (- 1)))
             else (v2, d2))
      in (l\<lparr>value := v3, direction := d3\<rparr>, callback l v3 w))"



section \<open>Blobs and the flock operations\<close>

record colour =
  hue :: real
  sat :: real
  val :: real
  rgb :: "int \<times> int \<times> int"

record blob =
  x :: real
  y :: real
  bearing :: real
  colour :: colour
  bearingShift :: real
  extraSpeed :: real

definition attractBlobs :: "blob list \<Rightarrow> real \<Rightarrow> real \<Rightarrow> blob list" where
  "attractBlobs blobs0 px py =
    for_in blobs0
      (\<lambda>i bs.
        let dx = px - x (bs ! i);
            dy = - (py - y (bs ! i))
        in bs[i := (bs ! i)\<lparr>bearing := Math_atan2 dx dy\<rparr>])
      blobs0"

definition moveBlobs :: "blob list \<Rightarrow> real \<Rightarrow> real \<Rightarrow> blob list" where
  "moveBlobs blobs0 px py =
    for_in blobs0 (\<lambda>i bs. bs[i := (bs ! i)\<lparr>x := px, y := py\<rparr>]) blobs0"

section \<open>Macro events, key names and the global state\<close>

text \<open>
  A move, as the comment on \<^verbatim>\<open>Macro\<close> describes it: a time in seconds, a type
  (\<^verbatim>\<open>keyup\<close>, \<^verbatim>\<open>keydown\<close> or \<^verbatim>\<open>click\<close>) and, depending on the type, the friendly name of
  a key or a pair of coordinates.
\<close>

datatype key_type = keyup | keydown

datatype event = key_event key_type string | click_event real real

record move =
  time :: real
  event :: event

text \<open>
  \<^verbatim>\<open>KEY_NAMES[name]\<close>: the key code of a friendly name, \<open>None\<close> for \<^verbatim>\<open>undefined\<close>. A key of
  \<^verbatim>\<open>pressedKeys\<close> is such a value.
\<close>

type_synonym keycode = "nat option"

definition KEY_NAMES :: "string \<Rightarrow> keycode" where
  "KEY_NAMES = map_of
    [(''pause'', 16), (''randomise'', 82), (''center'', 67), (''slow'', 83), (''wavy'', 87),
     (''settings'', 79), (''toggleClear'', 75), (''help'', 72), (''toggleSymmetry'', 89),
     (''reverse'', 86), (''randomiseSpeed'', 81), (''startMacro'', 77), (''esc'', 27)]"

text \<open>
  A \<^verbatim>\<open>Macro\<close> object: the public \<^verbatim>\<open>moves\<close> and \<^verbatim>\<open>started\<close>, and the closure variables
  \<^verbatim>\<open>position\<close> and \<^verbatim>\<open>startIndex\<close> (\<^verbatim>\<open>undefined\<close>, here \<open>None\<close>, until \<^verbatim>\<open>start\<close> runs).
\<close>

record macro =
  moves :: "move list"
  position :: real
  startIndex :: "nat option"
  started :: bool

definition new_Macro :: "move list \<Rightarrow> macro" where
  "new_Macro ms = \<lparr>moves = ms, position = 0, startIndex = None, started = False\<rparr>"

definition Macro_start :: "macro \<Rightarrow> macro" where
  "Macro_start this = this\<lparr>startIndex := Some 0, position := 0, started := True\<rparr>"

text \<open>
  A \<^verbatim>\<open>MacroRecording\<close> object: its \<^verbatim>\<open>moves\<close> (here \<open>rec_moves\<close>) and the closure variable
  \<^verbatim>\<open>startTime\<close>, \<open>None\<close> for \<^verbatim>\<open>null\<close>.
\<close>

record MacroRecording =
  rec_moves :: "move list"
  startTime :: "int option"

definition new_MacroRecording :: MacroRecording where
  "new_MacroRecording = \<lparr>rec_moves = [], startTime = None\<rparr>"

definition getTime :: "int \<Rightarrow> MacroRecording \<Rightarrow> real \<times> MacroRecording" where
  "getTime now r =
    (case startTime r of
       None \<Rightarrow> (0, r\<lparr>startTime := Some now\<rparr>)
     | Some t0 \<Rightarrow> (real_of_int (now - t0) / 1000, r))"

definition addClick :: "int \<Rightarrow> real \<Rightarrow> real \<Rightarrow> MacroRecording \<Rightarrow> MacroRecording" where
  "addClick now cx cy r =
    (case getTime now r of
       (t, r1) \<Rightarrow> r1\<lparr>rec_moves := rec_moves r1 @ [\<lparr>time = t, event = click_event cx cy\<rparr>]\<rparr>)"

definition addKeyEvent :: "int \<Rightarrow> string \<Rightarrow> key_type \<Rightarrow> MacroRecording \<Rightarrow> MacroRecording" where
  "addKeyEvent now keyName ty r =
    (case getTime now r of
       (t, r1) \<Rightarrow> r1\<lparr>rec_moves := rec_moves r1 @ [\<lparr>time = t, event = key_event ty keyName\<rparr>]\<rparr>)"

text \<open>
  The global variables the modelled functions read and write. While a macro's \<^verbatim>\<open>update\<close>
  runs, its object (\<^verbatim>\<open>this\<close>) is threaded beside this record, and \<open>currentMacro\<close> says
  whether the global \<^verbatim>\<open>currentMacro\<close> is that same object (\<open>This\<close>) or another one with a
  state of its own (\<open>Other\<close>). \<^verbatim>\<open>Math.random()\<close> returns the next value of the stream
  \<open>random\<close>; \<open>drawn\<close> counts the calls made so far.
\<close>

datatype dialog = settings_popup | help_popup

datatype macro_ref = This | Other macro

record env =
  blobs :: "blob list"
  pressedKeys :: "keycode set"
  clearCanvas :: bool
  symmetry :: bool
  canvas_width :: real
  canvas_height :: real
  displayedDialog :: "dialog option"
  currentMacro :: macro_ref
  macroRecording :: "MacroRecording option"
  random :: "nat \<Rightarrow> real"
  drawn :: nat

definition handleClick :: "real \<Rightarrow> real \<Rightarrow> env \<Rightarrow> env" where
  "handleClick px py e =
    (if KEY_NAMES ''pause'' \<in> pressedKeys e then e\<lparr>blobs := moveBlobs (blobs e) px py\<rparr>
     else e\<lparr>blobs := attractBlobs (blobs e) px py\<rparr>)"

definition showDialog :: "dialog \<Rightarrow> env \<Rightarrow> env" where
  "showDialog d e = e\<lparr>displayedDialog := Some d\<rparr>"

definition hideDialog :: "env \<Rightarrow> env" where
  "hideDialog e = e\<lparr>displayedDialog := None\<rparr>"

definition showSettings :: "env \<Rightarrow> env" where
  "showSettings e = showDialog settings_popup e"

definition toggleHelp :: "env \<Rightarrow> env" where
  "toggleHelp e =
    (if displayedDialog e = None then showDialog help_popup e
     else if displayedDialog e = Some help_popup then hideDialog e
     else e)"

text \<open>
  \<^verbatim>\<open>handleKeypress\<close>. \<^verbatim>\<open>saveSettings\<close> parses the text of the settings editor, writes
  local storage and runs \<^verbatim>\<open>setup\<close>, which builds new objects from the page; it is taken as
  a parameter acting on the global state. It cannot reach into the macro object being
  updated: \<^verbatim>\<open>setup\<close> only replaces the global \<^verbatim>\<open>currentMacro\<close> by a new object.
\<close>

definition handleKeypress :: "(env \<Rightarrow> env) \<Rightarrow> keycode \<Rightarrow> macro \<times> env \<Rightarrow> macro \<times> env" where
  "handleKeypress saveSettings keyCode st =
    (case st of (this, e) \<Rightarrow>
      if keyCode = KEY_NAMES ''randomise'' then
        (this,
         for_in (blobs e)
           (\<lambda>i e1. e1\<lparr>blobs := (blobs e1)[i := (blobs e1 ! i)\<lparr>bearing := random e1 (drawn e1) * 2 * pi\<rparr>],
                      drawn := drawn e1 + 1\<rparr>)
           e)
      else if keyCode = KEY_NAMES ''settings'' then
        (this, if displayedDialog e = None then showSettings e else e)
      else if keyCode = KEY_NAMES ''toggleClear'' then
        (this, e\<lparr>clearCanvas := \<not> clearCanvas e\<rparr>)
      else if keyCode = KEY_NAMES ''help'' then
        (this, toggleHelp e)
      else if keyCode = KEY_NAMES ''esc'' then
        (this,
         if displayedDialog e = Some settings_popup then saveSettings e
         else if displayedDialog e \<noteq> None then hideDialog e
         else e)
      else if keyCode = KEY_NAMES ''toggleSymmetry'' then
        (this, e\<lparr>symmetry := \<not> symmetry e\<rparr>)
      else if keyCode = KEY_NAMES ''reverse'' then
        (this,
         e\<lparr>blobs := for_in (blobs e)
                      (\<lambda>i bs. bs[i := (bs ! i)\<lparr>bearing := bearing (bs ! i) + pi\<rparr>])
                      (blobs e)\<rparr>)
      else if keyCode = KEY_NAMES ''startMacro'' then
        (case currentMacro e of
           This \<Rightarrow> (Macro_start this, e)
         | Other m \<Rightarrow> (this, e\<lparr>currentMacro := Other (Macro_start m)\<rparr>))
      else (this, e))"

section \<open>Macro playback: \<^verbatim>\<open>Macro.update\<close>\<close>

text \<open>The \<^verbatim>\<open>switch\<close> on the type of the move at index \<open>i\<close>.\<close>

definition Macro_update_switch :: "(env \<Rightarrow> env) \<Rightarrow> move \<Rightarrow> macro \<times> env \<Rightarrow> macro \<times> env" where
  "Macro_update_switch saveSettings mv st =
    (case st of (this, e) \<Rightarrow>
      (case event mv of
         key_event keyup k \<Rightarrow>
           (this, e\<lparr>pressedKeys := pressedKeys e - {KEY_NAMES k}\<rparr>)
       | key_event keydown k \<Rightarrow>
           handleKeypress saveSettings (KEY_NAMES k)
             (this, e\<lparr>pressedKeys := insert (KEY_NAMES k) (pressedKeys e)\<rparr>)
       | click_event cx cy \<Rightarrow>
           (this, handleClick (cx * canvas_width e / 100) (cy * canvas_height e / 100) e)))"

lemma Macro_update_switch_moves:
  "moves (fst (Macro_update_switch saveSettings mv (this, e))) = moves this"
  by (simp add: Macro_update_switch_def handleKeypress_def Macro_start_def
      split: event.split key_type.split macro_ref.split)

text \<open>
  The \<^verbatim>\<open>for\<close> loop from index \<open>i\<close>. Beside the new state it returns the indices whose
  \<^verbatim>\<open>switch\<close> ran during the call, in order: the events the call fired.
\<close>

function Macro_update_loop ::
  "(env \<Rightarrow> env) \<Rightarrow> nat \<Rightarrow> macro \<times> env \<Rightarrow> nat list \<times> macro \<times> env" where
  "Macro_update_loop saveSettings i (this, e) =
    (if i < length (moves this) then
       (if time (moves this ! i) < position this then
          (let st1 = Macro_update_switch saveSettings (moves this ! i) (this, e);
               this1 = (fst st1)\<lparr>startIndex := map_option Suc (startIndex (fst st1))\<rparr>;
               this2 = (if startIndex this1 = Some (length (moves this1))
                        then this1\<lparr>started := False\<rparr> else this1);
               rest = Macro_update_loop saveSettings (i + 1) (this2, snd st1)
           in (i # fst rest, snd rest))
        else Macro_update_loop saveSettings (i + 1) (this, e))
     else ([], this, e))"
  by pat_completeness auto
termination
  by (relation "measure (\<lambda>(saveSettings, i, this, e). length (moves this) - i)")
    (auto simp: Macro_update_switch_moves)

definition Macro_update :: "(env \<Rightarrow> env) \<Rightarrow> real \<Rightarrow> macro \<times> env \<Rightarrow> nat list \<times> macro \<times> env" where
  "Macro_update saveSettings dt st =
    (case (case startIndex (fst st) of
             None \<Rightarrow> ([], st)
           | Some i \<Rightarrow> Macro_update_loop saveSettings i st) of
       (fired, this, e) \<Rightarrow> (fired, this\<lparr>position := position this + dt\<rparr>, e))"

text \<open>
  A sequence of \<^verbatim>\<open>update\<close> calls on one macro object: for each call, the events it
  fired and the state it left.
\<close>

fun Macro_ticks ::
  "(env \<Rightarrow> env) \<Rightarrow> real list \<Rightarrow> macro \<times> env \<Rightarrow> (nat list \<times> macro \<times> env) list" where
  "Macro_ticks saveSettings [] st = []"
| "Macro_ticks saveSettings (dt # dts) st =
    Macro_update saveSettings dt st # Macro_ticks saveSettings dts (snd (Macro_update saveSettings dt st))"

section \<open>The click listener of the canvas\<close>

definition canvas_click :: "int \<Rightarrow> real \<Rightarrow> real \<Rightarrow> env \<Rightarrow> env" where
  "canvas_click now offsetX offsetY e =
    (let e1 = handleClick offsetX offsetY e
     in case macroRecording e1 of
          None \<Rightarrow> e1
        | Some r \<Rightarrow>
            e1\<lparr>macroRecording :=
                 Some (addClick now (100 * offsetX / canvas_width e1)
                                    (100 * offsetY / canvas_height e1) r)\<rparr>)"

section \<open>Call sequences and fixtures for the concrete instances\<close>

text \<open>A call of one of the two appending methods, and the event it records.\<close>

datatype recorder_call = call_addClick real real | call_addKeyEvent string key_type

fun recorder_apply :: "int \<times> recorder_call \<Rightarrow> MacroRecording \<Rightarrow> MacroRecording" where
  "recorder_apply (now, call_addClick cx cy) r = addClick now cx cy r"
| "recorder_apply (now, call_addKeyEvent keyName ty) r = addKeyEvent now keyName ty r"

fun recorded_event :: "recorder_call \<Rightarrow> event" where
  "recorded_event (call_addClick cx cy) = click_event cx cy"
| "recorded_event (call_addKeyEvent keyName ty) = key_event ty keyName"



text \<open>A \<^verbatim>\<open>saveSettings\<close> that changes nothing (the editor holds invalid JSON).\<close>

definition no_saveSettings :: "env \<Rightarrow> env" where
  "no_saveSettings e = e"

text \<open>A state with no blob, no key held and a fresh recording, on a 200 by 100 canvas.\<close>

definition env0 :: env where
  "env0 =
    \<lparr>blobs = [], pressedKeys = {}, clearCanvas = True, symmetry = True,
     canvas_width = 200, canvas_height = 100, displayedDialog = None, currentMacro = This,
     macroRecording = Some new_MacroRecording, random = (\<lambda>n. 0), drawn = 0\<rparr>"

text \<open>A blob at the origin, heading right.\<close>

definition blob0 :: blob where
  "blob0 =
    \<lparr>x = 0, y = 0, bearing = pi / 2,
     colour = \<lparr>hue = 120, sat = 100, val = 100, rgb = (0, 255, 0)\<rparr>,
     bearingShift = 0, extraSpeed = 0\<rparr>"

text \<open>A callback that ignores the value, on a state with nothing in it.\<close>

definition no_callback :: "real \<Rightarrow> unit \<Rightarrow> unit" where
  "no_callback v w = w"

section \<open>Colour conversion\<close>

lemma round_unit_channel:
  assumes "0 \<le> c" "c \<le> 1"
  shows "channel (Math_round (c * 255))"
proof -
  have "0 \<le> c * 255 + 1 / 2" using assms by simp
  then have lo: "0 \<le> \<lfloor>c * 255 + 1 / 2\<rfloor>" by simp
  have "c * 255 + 1 / 2 < 256" using assms by simp
  then have "\<lfloor>c * 255 + 1 / 2\<rfloor> < 256" by (simp add: floor_less_iff)
  with lo show ?thesis by (simp add: channel_def Math_round_def)
qed

lemma scaled_unit:
  fixes v k :: real
  assumes "0 \<le> v" "v \<le> 1" "0 \<le> k" "k \<le> 1"
  shows "0 \<le> v * (1 - k) \<and> v * (1 - k) \<le> 1"
proof -
  have a: "0 \<le> 1 - k" "1 - k \<le> 1" using assms by simp_all
  have "0 \<le> v * (1 - k)" using assms(1) a(1) by (rule mult_nonneg_nonneg)
  moreover have "v * (1 - k) \<le> 1 * 1"
    using assms(2) a(2) a(1) assms(1) by (intro mult_mono) simp_all
  ultimately show ?thesis by simp
qed

lemma prod_unit:
  fixes s f :: real
  assumes "0 \<le> s" "s \<le> 1" "0 \<le> f" "f \<le> 1"
  shows "0 \<le> s * f \<and> s * f \<le> 1"
proof -
  have "s * f \<le> 1 * 1" using assms by (intro mult_mono) simp_all
  then show ?thesis using assms by simp
qed

lemma hsvToRgb_channels:
  "case hsvToRgb h s v of (r, g, b) \<Rightarrow> channel r \<and> channel g \<and> channel b"
proof -
  define S where "S = max 0 (min 100 s) / 100"
  define V where "V = max 0 (min 100 v) / 100"
  define H where "H = max 0 (min 360 h) / 60"
  define F where "F = H - of_int \<lfloor>H\<rfloor>"
  have S: "0 \<le> S" "S \<le> 1" by (simp_all add: S_def)
  have V: "0 \<le> V" "V \<le> 1" by (simp_all add: V_def)
  have F: "0 \<le> F" "F \<le> 1" unfolding F_def by linarith+
  have F': "0 \<le> 1 - F" "1 - F \<le> 1" using F by simp_all
  have cv: "channel (Math_round (V * 255))" using V by (rule round_unit_channel)
  have cp: "channel (Math_round (V * (1 - S) * 255))"
    using scaled_unit [OF V S] by (intro round_unit_channel) simp_all
  have cq: "channel (Math_round (V * (1 - S * F) * 255))"
    using scaled_unit [OF V] prod_unit [OF S F] by (intro round_unit_channel) simp_all
  have ct: "channel (Math_round (V * (1 - S * (1 - F)) * 255))"
    using scaled_unit [OF V] prod_unit [OF S F'] by (intro round_unit_channel) simp_all
  show ?thesis
    unfolding hsvToRgb_def Let_def
    apply (fold S_def V_def H_def)
    apply (fold F_def)
    using cv cp cq ct by (simp only: split_conv simp_thms split: if_split)
qed

lemma hsvToRgb_clamps:
  "hsvToRgb h s v = hsvToRgb (max 0 (min 360 h)) (max 0 (min 100 s)) (max 0 (min 100 v))"
  by (simp add: hsvToRgb_def)

text \<open>
  C5. Whatever the three inputs, in range or not, \<^verbatim>\<open>hsvToRgb\<close> returns three integers
  from 0 to 255, and the result is the one for the inputs clamped to 0..360, 0..100 and
  0..100. Hue 0, 120 and 240 at full saturation and value give pure red, green and blue.
\<close>

theorem hsvToRgb_channels_and_primaries:
  "channel (fst (hsvToRgb h s v))
   \<and> channel (fst (snd (hsvToRgb h s v)))
   \<and> channel (snd (snd (hsvToRgb h s v)))
   \<and> hsvToRgb h s v = hsvToRgb (max 0 (min 360 h)) (max 0 (min 100 s)) (max 0 (min 100 v))
   \<and> hsvToRgb 0 100 100 = (255, 0, 0)
   \<and> hsvToRgb 120 100 100 = (0, 255, 0)
   \<and> hsvToRgb 240 100 100 = (0, 0, 255)"
proof -
  have "channel (fst (hsvToRgb h s v)) \<and> channel (fst (snd (hsvToRgb h s v)))
      \<and> channel (snd (snd (hsvToRgb h s v)))"
    using hsvToRgb_channels [of h s v] by (simp add: split_beta)
  moreover have "hsvToRgb 0 100 100 = (255, 0, 0)"
    by (simp add: hsvToRgb_def Math_round_def Let_def)
  moreover have "hsvToRgb 120 100 100 = (0, 255, 0)"
    by (simp add: hsvToRgb_def Math_round_def Let_def)
  moreover have "hsvToRgb 240 100 100 = (0, 0, 255)"
    by (simp add: hsvToRgb_def Math_round_def Let_def)
  ultimately show ?thesis using hsvToRgb_clamps [of h s v] by simp
qed

theorem hsvToRgb_channels_and_primaries_witness:
  "channel (fst (hsvToRgb 400 50 (- 3)))
   \<and> channel (fst (snd (hsvToRgb 400 50 (- 3))))
   \<and> channel (snd (snd (hsvToRgb 400 50 (- 3))))
   \<and> hsvToRgb 0 100 100 = (255, 0, 0)"
  using hsvToRgb_channels_and_primaries [of 400 50 "- 3"] by blast

text \<open>
  C6. When the saturation is 0 after clamping, that is when the argument is at most 0,
  \<^verbatim>\<open>hsvToRgb\<close> returns the rounded value channel three times, whatever the hue: the
  sector computation is not reached.
\<close>

theorem hsvToRgb_achromatic:
  assumes "max 0 (min 100 s) = 0"
  shows "hsvToRgb h s v =
          (Math_round (max 0 (min 100 v) / 100 * 255),
           Math_round (max 0 (min 100 v) / 100 * 255),
           Math_round (max 0 (min 100 v) / 100 * 255))"
  using assms by (simp add: hsvToRgb_def)

theorem hsvToRgb_achromatic_witness:
  "max 0 (min 100 (- 5 :: real)) = 0 \<and> hsvToRgb 200 (- 5) 50 = (128, 128, 128)"
  using hsvToRgb_achromatic [of "- 5" 200 50] by (simp add: Math_round_def)

section \<open>The oscillator\<close>


text \<open>The callback is called with the value the update leaves.\<close>

lemma LFO_update_callback:
  "snd (LFO_update dt (l, w)) = callback l (value (fst (LFO_update dt (l, w)))) w"
  by (simp add: LFO_update_def Let_def split_beta)










text \<open>
  C4, as the code has it. With ordered bounds: in bounce mode an update whose raw value is
  \<open>max + \<Delta>\<close>, with \<open>0 < \<Delta>\<close> and \<open>\<Delta>\<close> at most the range \<open>max - min\<close>, flips the direction and
  leaves the value \<open>max - \<Delta>\<close>; in both modes an update whose raw value is \<open>min - \<Delta>\<close> with
  \<open>0 < \<Delta>\<close> flips the direction and leaves the value \<open>min + \<Delta>\<close>.
\<close>

theorem LFO_bounce_reflection:
  assumes "minValue l \<le> maxValue l"
  shows "(\<not> loopRound l \<and> value l + speed l * dt * direction l = maxValue l + \<Delta>
            \<and> 0 < \<Delta> \<and> \<Delta> \<le> maxValue l - minValue l \<longrightarrow>
          value (fst (LFO_update dt (l, w))) = maxValue l - \<Delta>
            \<and> direction (fst (LFO_update dt (l, w))) = - direction l)
       \<and> (value l + speed l * dt * direction l = minValue l - \<Delta> \<and> 0 < \<Delta> \<longrightarrow>
          value (fst (LFO_update dt (l, w))) = minValue l + \<Delta>
            \<and> direction (fst (LFO_update dt (l, w))) = - direction l)"
  using assms by (auto simp: LFO_update_def Let_def)

theorem LFO_bounce_reflection_witness:
  "value (fst (LFO_update 7 (new_LFO 0 10 1 no_callback False, ()))) = 10 - 2
   \<and> direction (fst (LFO_update 7 (new_LFO 0 10 1 no_callback False, ()))) = - 1
   \<and> value (fst (LFO_update 7 (new_LFO 0 10 (- 1) no_callback True, ()))) = 0 + 2
   \<and> direction (fst (LFO_update 7 (new_LFO 0 10 (- 1) no_callback True, ()))) = - 1"
  using LFO_bounce_reflection [of "new_LFO 0 10 1 no_callback False" 7 2 "()"]
    LFO_bounce_reflection [of "new_LFO 0 10 (- 1) no_callback True" 7 2 "()"]
  by (simp add: new_LFO_def)

text \<open>
  C4 as stated fails when the overshoot is larger than the range. A bounce oscillator
  from 0 to 1 at rate 10 starts at 0.5 with direction +1; an update of 1 second has the
  raw value 10.5, an overshoot of 9.5. The reflection at the upper bound gives -8.5,
  below the lower bound, so the second test reflects again: the value left is 8.5, not
  \<open>1 - 9.5\<close>, and the direction is +1 again.
\<close>

theorem LFO_bounce_reflection_counterexample:
  "\<not> loopRound (new_LFO 0 1 10 no_callback False)
   \<and> value (new_LFO 0 1 10 no_callback False)
       + speed (new_LFO 0 1 10 no_callback False) * 1 * direction (new_LFO 0 1 10 no_callback False)
     = maxValue (new_LFO 0 1 10 no_callback False) + 19 / 2
   \<and> value (fst (LFO_update 1 (new_LFO 0 1 10 no_callback False, ()))) = 17 / 2
   \<and> value (fst (LFO_update 1 (new_LFO 0 1 10 no_callback False, ())))
       \<noteq> maxValue (new_LFO 0 1 10 no_callback False) - 19 / 2
   \<and> direction (fst (LFO_update 1 (new_LFO 0 1 10 no_callback False, ())))
       \<noteq> - direction (new_LFO 0 1 10 no_callback False)"
  by (simp add: LFO_update_def new_LFO_def Let_def)

section \<open>The flock operations\<close>

text \<open>A loop that rewrites each element in place maps the rewriting over the array.\<close>

lemma fold_pointwise:
  "n \<le> length xs \<Longrightarrow>
    fold (\<lambda>i bs. bs[i := g (bs ! i)]) [0..<n] xs = map g (take n xs) @ drop n xs"
proof (induction n)
  case 0
  then show ?case by simp
next
  case (Suc n)
  then have n: "n < length xs" by simp
  have "fold (\<lambda>i bs. bs[i := g (bs ! i)]) [0..<Suc n] xs
      = (map g (take n xs) @ drop n xs)[n := g ((map g (take n xs) @ drop n xs) ! n)]"
    using Suc by simp
  also have "(map g (take n xs) @ drop n xs) ! n = xs ! n"
    using n by (simp add: nth_append)
  also have "(map g (take n xs) @ drop n xs)[n := g (xs ! n)]
      = map g (take n xs) @ (drop n xs)[0 := g (xs ! n)]"
    using n by (simp add: list_update_append)
  also have "(drop n xs)[0 := g (xs ! n)] = g (xs ! n) # drop (Suc n) xs"
    using n by (simp add: Cons_nth_drop_Suc [symmetric])
  also have "map g (take n xs) @ g (xs ! n) # drop (Suc n) xs
      = map g (take (Suc n) xs) @ drop (Suc n) xs"
    using n by (simp add: take_Suc_conv_app_nth)
  finally show ?case .
qed

lemma for_in_pointwise:
  "for_in xs (\<lambda>i bs. bs[i := g (bs ! i)]) xs = map g xs"
  by (simp add: for_in_def fold_pointwise)

lemma attractBlobs_map:
  "attractBlobs bs px py = map (\<lambda>b. b\<lparr>bearing := Math_atan2 (px - x b) (- (py - y b))\<rparr>) bs"
  unfolding attractBlobs_def Let_def by (rule for_in_pointwise)

lemma moveBlobs_map:
  "moveBlobs bs px py = map (\<lambda>b. b\<lparr>x := px, y := py\<rparr>) bs"
  unfolding moveBlobs_def by (rule for_in_pointwise)

text \<open>
  C8. \<^verbatim>\<open>attractBlobs\<close> keeps the array's length and order and, in every blob, sets the
  bearing to \<open>atan2 (px - x) (- (py - y))\<close> and leaves every other field as it was. A blob
  at (0, 0) attracted toward (0, -10) ends with bearing 0, whose sine is 0 and cosine 1.
\<close>

theorem attractBlobs_bearing:
  "attractBlobs bs px py
     = map (\<lambda>b. b\<lparr>bearing := Math_atan2 (px - x b) (- (py - y b))\<rparr>) bs
   \<and> (x b0 = 0 \<and> y b0 = 0 \<longrightarrow>
        attractBlobs [b0] 0 (- 10) = [b0\<lparr>bearing := 0\<rparr>]
        \<and> sin (bearing (hd (attractBlobs [b0] 0 (- 10)))) = 0
        \<and> cos (bearing (hd (attractBlobs [b0] 0 (- 10)))) = 1)"
  by (simp add: attractBlobs_map Math_atan2_def)

theorem attractBlobs_bearing_witness:
  "x blob0 = 0 \<and> y blob0 = 0
   \<and> attractBlobs [blob0] 0 (- 10) = [blob0\<lparr>bearing := 0\<rparr>]
   \<and> sin (bearing (hd (attractBlobs [blob0] 0 (- 10)))) = 0
   \<and> cos (bearing (hd (attractBlobs [blob0] 0 (- 10)))) = 1"
proof -
  have origin: "x blob0 = 0 \<and> y blob0 = 0" by (simp add: blob0_def)
  from attractBlobs_bearing [of "[blob0]" 0 "- 10" blob0] origin show ?thesis by blast
qed

text \<open>
  C9. With the pause key held, \<^verbatim>\<open>handleClick\<close> called twice in a row at the same point
  leaves the blobs exactly as one \<^verbatim>\<open>moveBlobs\<close> to that point does, so every blob has the
  same final position; the keys held are not changed by the call, so the pause key is
  still held at the second call.
\<close>

theorem handleClick_twice_paused:
  assumes "KEY_NAMES ''pause'' \<in> pressedKeys e"
  shows "blobs (handleClick px py (handleClick px py e)) = moveBlobs (blobs e) px py
       \<and> map (\<lambda>b. (x b, y b)) (blobs (handleClick px py (handleClick px py e)))
           = map (\<lambda>b. (x b, y b)) (moveBlobs (blobs e) px py)
       \<and> pressedKeys (handleClick px py e) = pressedKeys e"
  using assms by (simp add: handleClick_def moveBlobs_map)

theorem handleClick_twice_paused_witness:
  "KEY_NAMES ''pause'' \<in> pressedKeys (env0\<lparr>blobs := [blob0], pressedKeys := {Some 16}\<rparr>)
   \<and> blobs (handleClick 3 4 (handleClick 3 4 (env0\<lparr>blobs := [blob0], pressedKeys := {Some 16}\<rparr>)))
       = moveBlobs [blob0] 3 4
   \<and> map (\<lambda>b. (x b, y b))
        (blobs (handleClick 3 4 (handleClick 3 4 (env0\<lparr>blobs := [blob0], pressedKeys := {Some 16}\<rparr>))))
       = [(3, 4)]"
  using handleClick_twice_paused [of "env0\<lparr>blobs := [blob0], pressedKeys := {Some 16}\<rparr>" 3 4]
  by (simp add: KEY_NAMES_def moveBlobs_map)

section \<open>The macro recorder\<close>

lemma recorder_apply_started:
  assumes "startTime r = Some t0"
  shows "recorder_apply (now, c) r
         = r\<lparr>rec_moves := rec_moves r
               @ [\<lparr>time = real_of_int (now - t0) / 1000, event = recorded_event c\<rparr>]\<rparr>"
  using assms by (cases c) (simp_all add: addClick_def addKeyEvent_def getTime_def)

lemma recorder_apply_first:
  assumes "startTime r = None"
  shows "recorder_apply (now, c) r
         = r\<lparr>rec_moves := rec_moves r @ [\<lparr>time = 0, event = recorded_event c\<rparr>],
              startTime := Some now\<rparr>"
  using assms by (cases c) (simp_all add: addClick_def addKeyEvent_def getTime_def)

lemma recorder_fold_started:
  assumes "startTime r = Some t0"
  shows "rec_moves (fold recorder_apply cs r)
         = rec_moves r
           @ map (\<lambda>c. \<lparr>time = real_of_int (fst c - t0) / 1000, event = recorded_event (snd c)\<rparr>) cs"
  using assms
proof (induction cs arbitrary: r)
  case Nil
  then show ?case by simp
next
  case (Cons c cs)
  obtain now call where c: "c = (now, call)" by (cases c)
  let ?r = "recorder_apply (now, call) r"
  have r': "?r = r\<lparr>rec_moves := rec_moves r
               @ [\<lparr>time = real_of_int (now - t0) / 1000, event = recorded_event call\<rparr>]\<rparr>"
    using Cons.prems by (rule recorder_apply_started)
  then have "startTime ?r = Some t0" using Cons.prems by simp
  then have "rec_moves (fold recorder_apply cs ?r)
      = rec_moves ?r
        @ map (\<lambda>c. \<lparr>time = real_of_int (fst c - t0) / 1000, event = recorded_event (snd c)\<rparr>) cs"
    by (rule Cons.IH)
  then show ?case by (simp add: c r')
qed

lemma recorder_fold_fresh:
  "rec_moves (fold recorder_apply ((now0, c0) # cs) new_MacroRecording)
   = map (\<lambda>c. \<lparr>time = real_of_int (fst c - now0) / 1000, event = recorded_event (snd c)\<rparr>)
       ((now0, c0) # cs)"
proof -
  let ?r = "recorder_apply (now0, c0) new_MacroRecording"
  have r: "?r = \<lparr>rec_moves = [\<lparr>time = 0, event = recorded_event c0\<rparr>], startTime = Some now0\<rparr>"
    using recorder_apply_first [of new_MacroRecording now0 c0]
    by (simp add: new_MacroRecording_def)
  then have "startTime ?r = Some now0" by simp
  then have "rec_moves (fold recorder_apply cs ?r)
      = rec_moves ?r
        @ map (\<lambda>c. \<lparr>time = real_of_int (fst c - now0) / 1000, event = recorded_event (snd c)\<rparr>) cs"
    by (rule recorder_fold_started)
  then show ?thesis by (simp add: r)
qed

lemma canvas_click_records:
  assumes "macroRecording e = Some r"
  shows "macroRecording (canvas_click now px py e)
         = Some (addClick now (100 * px / canvas_width e) (100 * py / canvas_height e) r)"
  using assms by (simp add: canvas_click_def handleClick_def Let_def)

text \<open>
  C7. Whatever calls of \<^verbatim>\<open>addClick\<close> and \<^verbatim>\<open>addKeyEvent\<close> a fresh recording receives,
  the first recorded move has time 0, and the move recorded by each call has as its time
  the clock at that call minus the clock at the first call, in seconds. A click on the
  canvas records its pixel coordinates as percentages of the canvas's width and height: a
  click at (50, 50) on a canvas of 200 by 100 records (25, 50).
\<close>

theorem MacroRecording_times_and_coords:
  "time (hd (rec_moves (fold recorder_apply ((now0, c0) # cs) new_MacroRecording))) = 0
   \<and> rec_moves (fold recorder_apply ((now0, c0) # cs) new_MacroRecording)
       = map (\<lambda>c. \<lparr>time = real_of_int (fst c - now0) / 1000, event = recorded_event (snd c)\<rparr>)
           ((now0, c0) # cs)
   \<and> (macroRecording e = Some r \<longrightarrow>
        macroRecording (canvas_click now px py e)
          = Some (addClick now (100 * px / canvas_width e) (100 * py / canvas_height e) r))
   \<and> (macroRecording e = Some new_MacroRecording \<and> canvas_width e = 200 \<and> canvas_height e = 100 \<longrightarrow>
        macroRecording (canvas_click now 50 50 e)
          = Some \<lparr>rec_moves = [\<lparr>time = 0, event = click_event 25 50\<rparr>], startTime = Some now\<rparr>)"
proof -
  let ?rec = "rec_moves (fold recorder_apply ((now0, c0) # cs) new_MacroRecording)"
  have all: "?rec
      = map (\<lambda>c. \<lparr>time = real_of_int (fst c - now0) / 1000, event = recorded_event (snd c)\<rparr>)
          ((now0, c0) # cs)"
    by (rule recorder_fold_fresh)
  have first: "time (hd ?rec) = 0"
    unfolding all by simp
  have click: "macroRecording e = Some r \<longrightarrow>
        macroRecording (canvas_click now px py e)
          = Some (addClick now (100 * px / canvas_width e) (100 * py / canvas_height e) r)"
    by (simp add: canvas_click_records)
  have percent: "macroRecording e = Some new_MacroRecording \<and> canvas_width e = 200
        \<and> canvas_height e = 100 \<longrightarrow>
        macroRecording (canvas_click now 50 50 e)
          = Some \<lparr>rec_moves = [\<lparr>time = 0, event = click_event 25 50\<rparr>], startTime = Some now\<rparr>"
    by (simp add: canvas_click_records addClick_def getTime_def new_MacroRecording_def)
  from first all click percent show ?thesis by blast
qed

theorem MacroRecording_times_and_coords_witness:
  "rec_moves (fold recorder_apply
      [(1000, call_addKeyEvent ''pause'' keydown), (1250, call_addClick 25 50),
       (3000, call_addKeyEvent ''pause'' keyup)] new_MacroRecording)
     = [\<lparr>time = 0, event = key_event keydown ''pause''\<rparr>,
        \<lparr>time = 1 / 4, event = click_event 25 50\<rparr>,
        \<lparr>time = 2, event = key_event keyup ''pause''\<rparr>]
   \<and> macroRecording env0 = Some new_MacroRecording
   \<and> canvas_width env0 = 200 \<and> canvas_height env0 = 100
   \<and> macroRecording (canvas_click 1000 50 50 env0)
       = Some \<lparr>rec_moves = [\<lparr>time = 0, event = click_event 25 50\<rparr>], startTime = Some 1000\<rparr>"
proof -
  have fixture: "macroRecording env0 = Some new_MacroRecording
      \<and> canvas_width env0 = 200 \<and> canvas_height env0 = 100"
    by (simp add: env0_def)
  have inst: "rec_moves (fold recorder_apply
       ((1000, call_addKeyEvent ''pause'' keydown)
        # [(1250, call_addClick 25 50), (3000, call_addKeyEvent ''pause'' keyup)])
       new_MacroRecording)
     = map (\<lambda>c. \<lparr>time = real_of_int (fst c - 1000) / 1000, event = recorded_event (snd c)\<rparr>)
        ((1000, call_addKeyEvent ''pause'' keydown)
         # [(1250, call_addClick 25 50), (3000, call_addKeyEvent ''pause'' keyup)])"
    and click: "macroRecording env0 = Some new_MacroRecording \<and> canvas_width env0 = 200
         \<and> canvas_height env0 = 100 \<longrightarrow>
       macroRecording (canvas_click 1000 50 50 env0)
       = Some \<lparr>rec_moves = [\<lparr>time = 0, event = click_event 25 50\<rparr>], startTime = Some 1000\<rparr>"
    using MacroRecording_times_and_coords
      [of 1000 "call_addKeyEvent ''pause'' keydown"
          "[(1250, call_addClick 25 50), (3000, call_addKeyEvent ''pause'' keyup)]"
          env0 new_MacroRecording 1000 50 50]
    by blast+
  have "map (\<lambda>c. \<lparr>time = real_of_int (fst c - 1000) / 1000, event = recorded_event (snd c)\<rparr>)
        ((1000, call_addKeyEvent ''pause'' keydown)
         # [(1250, call_addClick 25 50), (3000, call_addKeyEvent ''pause'' keyup)])
     = [\<lparr>time = 0, event = key_event keydown ''pause''\<rparr>,
        \<lparr>time = 1 / 4, event = click_event 25 50\<rparr>,
        \<lparr>time = 2, event = key_event keyup ''pause''\<rparr>]"
    by simp
  with inst fixture click show ?thesis by (simp only: simp_thms)
qed

section \<open>Macro playback\<close>



text \<open>A call of the loop that fires nothing changes nothing.\<close>

lemma Macro_update_loop_idle:
  "fst (Macro_update_loop saveSettings i st) = [] \<Longrightarrow>
    snd (Macro_update_loop saveSettings i st) = st"
proof (induction saveSettings i st rule: Macro_update_loop.induct)
  case (1 saveSettings i this e)
  show ?case
  proof (cases "i < length (moves this)")
    case False
    then show ?thesis by simp
  next
    case True
    show ?thesis
    proof (cases "time (moves this ! i) < position this")
      case fire: True
      with True "1.prems" show ?thesis by (simp add: Let_def)
    next
      case skip: False
      with True "1.prems" "1.IH"(2) show ?thesis by simp
    qed
  qed
qed

lemma Macro_update_idle:
  assumes "fst (Macro_update saveSettings dt (this, e)) = []"
  shows "snd (Macro_update saveSettings dt (this, e)) = (this\<lparr>position := position this + dt\<rparr>, e)"
proof (cases "startIndex this")
  case None
  then show ?thesis by (simp add: Macro_update_def)
next
  case (Some i)
  with assms have "fst (Macro_update_loop saveSettings i (this, e)) = []"
    by (simp add: Macro_update_def split_beta)
  then have "snd (Macro_update_loop saveSettings i (this, e)) = (this, e)"
    by (rule Macro_update_loop_idle)
  with Some show ?thesis by (simp add: Macro_update_def split_beta)
qed

lemma Macro_update_empty:
  "moves this = [] \<Longrightarrow>
    Macro_update saveSettings dt (this, e) = ([], this\<lparr>position := position this + dt\<rparr>, e)"
  by (simp add: Macro_update_def split: option.split)

lemma Macro_ticks_empty:
  assumes "moves this = []" "started this"
  shows "\<forall>r \<in> set (Macro_ticks saveSettings dts (this, e)).
           fst r = [] \<and> started (fst (snd r)) \<and> snd (snd r) = e"
  using assms
proof (induction dts arbitrary: this)
  case Nil
  then show ?case by simp
next
  case (Cons dt dts)
  let ?this = "this\<lparr>position := position this + dt\<rparr>"
  have "\<forall>r \<in> set (Macro_ticks saveSettings dts (?this, e)).
          fst r = [] \<and> started (fst (snd r)) \<and> snd (snd r) = e"
    using Cons.prems by (intro Cons.IH) simp_all
  then show ?case using Cons.prems by (simp add: Macro_update_empty)
qed




text \<open>
  C10. On a macro built from no event, after \<^verbatim>\<open>start\<close>, every call of \<^verbatim>\<open>update\<close> of any
  sequence fires nothing, leaves \<^verbatim>\<open>started\<close> true and leaves the global state as it was.
  On any macro, a call that fires nothing leaves \<^verbatim>\<open>started\<close> as it was: only an
  iteration that fires an event can clear it.
\<close>

theorem Macro_empty_never_stops:
  "(\<forall>r \<in> set (Macro_ticks saveSettings dts (Macro_start (new_Macro []), e)).
      fst r = [] \<and> started (fst (snd r)) \<and> snd (snd r) = e)
   \<and> (fst (Macro_update saveSettings dt (this, e)) = [] \<longrightarrow>
        started (fst (snd (Macro_update saveSettings dt (this, e)))) = started this)"
proof -
  have "moves (Macro_start (new_Macro [])) = []" "started (Macro_start (new_Macro []))"
    by (simp_all add: Macro_start_def new_Macro_def)
  then have "\<forall>r \<in> set (Macro_ticks saveSettings dts (Macro_start (new_Macro []), e)).
      fst r = [] \<and> started (fst (snd r)) \<and> snd (snd r) = e"
    by (rule Macro_ticks_empty)
  moreover have "fst (Macro_update saveSettings dt (this, e)) = [] \<longrightarrow>
        started (fst (snd (Macro_update saveSettings dt (this, e)))) = started this"
    by (simp add: Macro_update_idle)
  ultimately show ?thesis by blast
qed

theorem Macro_empty_never_stops_witness:
  "started (fst (snd (Macro_update no_saveSettings 5 (Macro_start (new_Macro []), env0))))
   \<and> fst (Macro_update no_saveSettings 5 (Macro_start (new_Macro []), env0)) = []
   \<and> snd (snd (Macro_update no_saveSettings 5 (Macro_start (new_Macro []), env0))) = env0"
  using Macro_empty_never_stops [of no_saveSettings "[5]" env0 5 "Macro_start (new_Macro [])"]
  by simp

end
